theory Spec2Isabelle
  imports Complex_Main "HOL-Library.Multiset"
begin

section \<open>Strings\<close>

text \<open>
  A JavaScript string is a sequence of UTF-16 code units. The model covers the texts whose
  code units are below 256 (ISO 8859-1): a \<^typ>\<open>char\<close> is one code unit, \<open>length\<close> is
  \<open>String.length\<close>. Numbers are exact (\<^typ>\<open>int\<close>, \<^typ>\<open>real\<close>): the rounding of IEEE
  doubles is outside the model, and so is \<open>NaN\<close>, except where a field is an option.
  A call of \<open>Math.random()\<close> is a parameter of the function that makes it.
\<close>

definition isSpace :: "char \<Rightarrow> bool" where
  \<comment> \<open>the class \<open>\s\<close> of a regular expression, and the characters \<open>trim\<close> removes\<close>
  "isSpace c = (of_char c \<in> set [9, 10, 11, 12, 13, 32, 160 :: int])"

definition isWordChar :: "char \<Rightarrow> bool" where
  \<comment> \<open>the class \<open>\w\<close>: \<open>[A-Za-z0-9_]\<close>\<close>
  "isWordChar c =
     (let n = of_char c :: int
      in (65 \<le> n \<and> n \<le> 90) \<or> (97 \<le> n \<and> n \<le> 122) \<or> (48 \<le> n \<and> n \<le> 57) \<or> n = 95)"

definition isTerminator :: "char \<Rightarrow> bool" where
  \<comment> \<open>the class \<open>[.!?]\<close>\<close>
  "isTerminator c = (c = CHR ''.'' \<or> c = CHR ''!'' \<or> c = CHR ''?'')"

definition toLowerChar :: "char \<Rightarrow> char" where
  "toLowerChar c =
     (let n = of_char c :: int
      in if 65 \<le> n \<and> n \<le> 90 then char_of (n + 32)
         else if n = 215 then c
         else if 192 \<le> n \<and> n \<le> 222 then char_of (n + 32)
         else c)"

definition toLowerCase :: "string \<Rightarrow> string" where
  "toLowerCase s = map toLowerChar s"

definition trim :: "string \<Rightarrow> string" where
  "trim s = rev (dropWhile isSpace (rev (dropWhile isSpace s)))"

text \<open>
  \<open>s.split(/[sep]+/)\<close>: the pieces between the maximal runs of separators. \<open>cur\<close> is the
  piece being read, reversed; \<open>inSep\<close> says that the last character was a separator. A
  separator at the start or the end of the string leaves an empty piece there, and the
  empty string splits into one empty piece.
\<close>

fun splitRuns :: "(char \<Rightarrow> bool) \<Rightarrow> string \<Rightarrow> bool \<Rightarrow> string \<Rightarrow> string list" where
  "splitRuns sep cur inSep [] = [rev cur]"
| "splitRuns sep cur inSep (c # cs) =
     (if sep c
      then (if inSep then splitRuns sep [] True cs else rev cur # splitRuns sep [] True cs)
      else splitRuns sep (c # cur) False cs)"

definition splitOn :: "(char \<Rightarrow> bool) \<Rightarrow> string \<Rightarrow> string list" where
  "splitOn sep s = splitRuns sep [] False s"

fun startsWith :: "string \<Rightarrow> string \<Rightarrow> bool" where
  "startsWith s [] = True"
| "startsWith [] (c # t) = False"
| "startsWith (a # s) (c # t) = (a = c \<and> startsWith s t)"

fun includes_str :: "string \<Rightarrow> string \<Rightarrow> bool" where
  \<comment> \<open>\<open>s.includes(t)\<close>: \<open>t\<close> occurs in \<open>s\<close> as a substring\<close>
  "includes_str [] t = (t = [])"
| "includes_str (a # s) t = (startsWith (a # s) t \<or> includes_str s t)"

fun join :: "string \<Rightarrow> string list \<Rightarrow> string" where
  "join sep [] = []"
| "join sep [s] = s"
| "join sep (s # t # ss) = s @ sep @ join sep (t # ss)"


section \<open>Lexical sentiment scoring\<close>

subsection \<open>\<open>lexicalScore\<close> (CombinedInsights) and \<open>analyzeSentiment\<close> (SentimentDashboard)\<close>

definition positiveWords :: "string list" where
  "positiveWords = [''good'', ''excellent'', ''great'', ''support'', ''beneficial'',
     ''positive'', ''agree'', ''helpful'', ''useful'', ''improvement'']"

definition negativeWords :: "string list" where
  "negativeWords = [''bad'', ''terrible'', ''oppose'', ''against'', ''negative'',
     ''disagree'', ''harmful'', ''useless'', ''wrong'', ''problem'']"

text \<open>The \<open>forEach\<close> loop over the words, with the running \<open>score\<close> as its state.\<close>

fun scoreWords :: "string list \<Rightarrow> string list \<Rightarrow> int \<Rightarrow> string list \<Rightarrow> int" where
  "scoreWords pos neg score [] = score"
| "scoreWords pos neg score (word # ws) =
     (let score1 = (if word \<in> set pos then score + 1 else score);
          score2 = (if word \<in> set neg then score1 - 1 else score1)
      in scoreWords pos neg score2 ws)"

definition lexicalScoreWith :: "string list \<Rightarrow> string list \<Rightarrow> string \<Rightarrow> int" where
  "lexicalScoreWith pos neg text = scoreWords pos neg 0 (splitOn isSpace (toLowerCase text))"

definition lexicalScore :: "string \<Rightarrow> int" where
  "lexicalScore text = lexicalScoreWith positiveWords negativeWords text"

text \<open>
  What the \<open>try\<close> block of \<open>analyzeSentiment\<close> sees of the backend. \<open>fetch\<close> or
  \<open>response.json()\<close> may reject; otherwise \<open>result?.data?.data || []\<close> is a list of rows, of
  which the code reads \<open>row[1]\<close> and \<open>row[2]\<close>. A field that is neither missing nor a string
  has no \<open>toLowerCase\<close> or \<open>replace\<close> method, and the call throws (as it does when
  the row itself is \<open>null\<close>). \<open>ConfText v\<close> is a string
  on which \<open>parseFloat\<close>, after the \<open>%\<close> is removed, gives \<open>v\<close> (\<open>None\<close> for \<open>NaN\<close>).
\<close>

datatype label_field = LabelMissing | LabelText string | LabelOther

datatype conf_field = ConfMissing | ConfText "real option" | ConfOther

datatype sentiment_reply = FetchRejected | BodyNotJson | Rows "(label_field \<times> conf_field) list"

record dashboard_result =
  d_sentiment :: string
  d_score :: int
  d_confidence :: "real option"
  normalizedScore :: real

definition neutralResult :: dashboard_result where
  "neutralResult = \<lparr>d_sentiment = ''neutral'', d_score = 0, d_confidence = Some 0,
     normalizedScore = 0\<rparr>"

definition analyzeSentiment_dashboard :: "sentiment_reply \<Rightarrow> string \<Rightarrow> dashboard_result" where
  "analyzeSentiment_dashboard reply text =
     (case reply of
        FetchRejected \<Rightarrow> neutralResult
      | BodyNotJson \<Rightarrow> neutralResult
      | Rows [] \<Rightarrow> neutralResult
      | Rows ((LabelOther, c) # rest) \<Rightarrow> neutralResult
      | Rows ((l, ConfOther) # rest) \<Rightarrow> neutralResult
      | Rows ((l, c) # rest) \<Rightarrow>
          (let sentiment = toLowerCase (case l of LabelText s \<Rightarrow> s | _ \<Rightarrow> ''neutral'');
               confidence = map_option (\<lambda>v. v / 100) (case c of ConfText v \<Rightarrow> v | _ \<Rightarrow> Some 0);
               words = splitOn isSpace (toLowerCase text);
               score = scoreWords positiveWords negativeWords 0 words
           in \<lparr>d_sentiment = sentiment, d_score = score, d_confidence = confidence,
                normalizedScore = max (-1) (min 1 (of_int score / of_nat (length words) * 5))\<rparr>))"

subsection \<open>\<open>getLocalSentimentAnalysis\<close> and \<open>analyzeSentiment\<close> (LiveStreamAnalyzer)\<close>

definition positiveWordsLocal :: "string list" where
  "positiveWordsLocal = [''good'', ''great'', ''excellent'', ''wonderful'', ''amazing'',
     ''support'', ''benefit'', ''helpful'', ''improve'']"

definition negativeWordsLocal :: "string list" where
  "negativeWordsLocal = [''bad'', ''poor'', ''terrible'', ''awful'', ''oppose'', ''burden'',
     ''restrictive'', ''unnecessary'', ''concern'']"

datatype sentiment = Positive | Negative | Neutral

record live_result =
  sentiment :: sentiment
  score :: real
  confidence :: real

text \<open>The \<open>forEach\<close> loop that counts the listed words occurring in the text.\<close>

fun countIncluded :: "string \<Rightarrow> nat \<Rightarrow> string list \<Rightarrow> nat" where
  "countIncluded text cnt [] = cnt"
| "countIncluded text cnt (word # ws) =
     countIncluded text (if includes_str text word then cnt + 1 else cnt) ws"

definition positiveCount :: "string \<Rightarrow> nat" where
  "positiveCount text = countIncluded (toLowerCase text) 0 positiveWordsLocal"

definition negativeCount :: "string \<Rightarrow> nat" where
  "negativeCount text = countIncluded (toLowerCase text) 0 negativeWordsLocal"

text \<open>
  \<open>random1\<close> and \<open>random2\<close> are the values of the two calls of \<open>Math.random()\<close> in the
  neutral branch, in the order of the calls; each is at least 0 and below 1.
\<close>

definition getLocalSentimentAnalysis :: "string \<Rightarrow> real \<Rightarrow> real \<Rightarrow> live_result" where
  "getLocalSentimentAnalysis text random1 random2 =
     (let p = positiveCount text; n = negativeCount text
      in if p > n then
           (let conf = min (0.5 + (real p - real n) * 0.1) 0.9
            in \<lparr>sentiment = Positive, score = 0.5 + conf * 0.5, confidence = conf\<rparr>)
         else if n > p then
           (let conf = min (0.5 + (real n - real p) * 0.1) 0.9
            in \<lparr>sentiment = Negative, score = - (0.5 + conf * 0.5), confidence = conf\<rparr>)
         else \<lparr>sentiment = Neutral, score = (random2 - 0.5) * 0.4,
                confidence = 0.3 + random1 * 0.2\<rparr>)"









section \<open>Extractive summarizer (CommentSummarizer, local version)\<close>

text \<open>
  \<open>Array.prototype.sort\<close> is stable. \<open>jsSort after xs\<close> sorts \<open>xs\<close> with a comparator
  \<open>cmp\<close>, where \<open>after a b\<close> says \<open>cmp(a, b) > 0\<close>: an element moves behind another one only
  when the comparator puts it after.
\<close>

fun insertSorted :: "('a \<Rightarrow> 'a \<Rightarrow> bool) \<Rightarrow> 'a \<Rightarrow> 'a list \<Rightarrow> 'a list" where
  "insertSorted after a [] = [a]"
| "insertSorted after a (b # bs) =
     (if after a b then b # insertSorted after a bs else a # b # bs)"

definition jsSort :: "('a \<Rightarrow> 'a \<Rightarrow> bool) \<Rightarrow> 'a list \<Rightarrow> 'a list" where
  "jsSort after xs = foldr (insertSorted after) xs []"

datatype summary_length = Short | Medium | Long

record scored_sentence =
  sentence :: string
  sentenceScore :: int
  index :: nat

definition keyTerms :: "string list" where
  "keyTerms = [''bill'', ''amendment'', ''regulation'', ''corporate'', ''company'',
     ''business'', ''compliance'', ''governance'']"

definition sentences :: "string \<Rightarrow> string list" where
  "sentences text = filter (\<lambda>s. length (trim s) > 0) (splitOn isTerminator text)"

definition targetSentences :: "summary_length \<Rightarrow> nat \<Rightarrow> nat" where
  "targetSentences len n =
     (case len of
        Short \<Rightarrow> max 1 (nat \<lceil>real n * 0.2\<rceil>)
      | Medium \<Rightarrow> max 2 (nat \<lceil>real n * 0.4\<rceil>)
      | Long \<Rightarrow> max 3 (nat \<lceil>real n * 0.6\<rceil>))"

fun keyTermScore :: "string list \<Rightarrow> int \<Rightarrow> string list \<Rightarrow> int" where
  "keyTermScore ws sc [] = sc"
| "keyTermScore ws sc (term # ts) =
     keyTermScore ws (if list_ex (\<lambda>word. includes_str word term) ws then sc + 2 else sc) ts"

definition scoreSentence :: "nat \<Rightarrow> nat \<Rightarrow> string \<Rightarrow> int" where
  "scoreSentence n i s =
     (let ws = splitOn isSpace (toLowerCase s);
          sc0 = keyTermScore ws 0 keyTerms;
          sc1 = (if real i < real n * 0.3 then sc0 + 1 else sc0);
          sc2 = (if real i > real n * 0.7 then sc1 + 1 else sc1);
          sc3 = (if length ws > 10 then sc2 + 1 else sc2)
      in sc3)"

definition scoredSentences :: "string \<Rightarrow> scored_sentence list" where
  "scoredSentences text =
     map (\<lambda>(i, s). \<lparr>sentence = trim s,
                     sentenceScore = scoreSentence (length (sentences text)) i s, index = i\<rparr>)
       (enumerate 0 (sentences text))"

definition topSentences :: "string \<Rightarrow> summary_length \<Rightarrow> scored_sentence list" where
  "topSentences text len =
     jsSort (\<lambda>a b. int (index a) - int (index b) > 0)
       (take (targetSentences len (length (sentences text)))
          (jsSort (\<lambda>a b. sentenceScore b - sentenceScore a > 0) (scoredSentences text)))"

definition summarizeText :: "string \<Rightarrow> summary_length \<Rightarrow> string" where
  "summarizeText text len = join ''. '' (map sentence (topSentences text len)) @ ''.''"

text \<open>
  The state of the component, as far as the summary depends on it (the key phrases and
  the highlighted text are computed beside the summary and do not enter it).
  \<open>handleSummarize\<close> is one click on the button, from the state at the click to the state
  after the last \<open>set\<close> call.
\<close>

record summarizer_state =
  inputText :: string
  summary :: string
  summaryLength :: summary_length
  isProcessing :: bool

definition handleSummarize :: "summarizer_state \<Rightarrow> summarizer_state" where
  "handleSummarize st =
     (if trim (inputText st) = [] then st
      else st\<lparr>summary := summarizeText (inputText st) (summaryLength st),
              isProcessing := False\<rparr>)"


section \<open>Word frequencies (WordCloudGenerator)\<close>

definition stopWords :: "string list" where
  "stopWords = [''the'', ''a'', ''an'', ''and'', ''or'', ''but'', ''in'', ''on'', ''at'', ''to'',
     ''for'', ''of'', ''with'', ''by'', ''is'', ''are'', ''was'', ''were'', ''be'', ''been'',
     ''being'', ''have'', ''has'', ''had'', ''do'', ''does'', ''did'', ''will'', ''would'',
     ''could'', ''should'', ''may'', ''might'', ''must'', ''can'', ''this'', ''that'', ''these'',
     ''those'', ''i'', ''you'', ''he'', ''she'', ''it'', ''we'', ''they'', ''me'', ''him'', ''her'',
     ''us'', ''them'', ''my'', ''your'', ''his'', ''her'', ''its'', ''our'', ''their'', ''am'',
     ''as'', ''if'', ''so'', ''than'', ''very'']"

definition stripPunctuation :: "string \<Rightarrow> string" where
  \<comment> \<open>\<open>replace(/[^\w\s]/g, ' ')\<close>\<close>
  "stripPunctuation s = map (\<lambda>c. if isWordChar c \<or> isSpace c then c else CHR '' '') s"

definition tokens :: "string \<Rightarrow> string list" where
  "tokens text = splitOn isSpace (stripPunctuation (toLowerCase text))"

definition filteredWords :: "string \<Rightarrow> bool \<Rightarrow> string list" where
  "filteredWords text removeStopWords =
     (let ws = filter (\<lambda>word. length word > 2) (tokens text)
      in if removeStopWords then filter (\<lambda>word. word \<notin> set stopWords) ws else ws)"

text \<open>
  The object \<open>frequency\<close> is made by the literal \<open>{}\<close>, so it inherits from
  \<open>Object.prototype\<close>. Its own properties are an association list in the order of their
  creation. A value stored in it is a number or a string: \<open>+\<close> concatenates as soon as an
  operand is not a number.

  \<open>frequency[word]\<close> reads an own property first, then the prototype: there \<open>__proto__\<close> is
  an accessor that gives \<open>Object.prototype\<close> itself, which converts to the string
  \<open>[object Object]\<close>, and the other names are methods, which convert to their source text
  (written here as V8 prints it).
\<close>

datatype jsval = Num nat | Str string

datatype property = Own jsval | Inherited string | Undefined

definition objectPrototypeMethods :: "string list" where
  "objectPrototypeMethods = [''constructor'', ''__defineGetter__'', ''__defineSetter__'',
     ''hasOwnProperty'', ''__lookupGetter__'', ''__lookupSetter__'', ''isPrototypeOf'',
     ''propertyIsEnumerable'', ''toString'', ''valueOf'', ''toLocaleString'']"

definition nativeSource :: "string \<Rightarrow> string" where
  "nativeSource key =
     ''function '' @ (if key = ''constructor'' then ''Object'' else key) @ ''() { [native code] }''"

definition getProperty :: "(string \<times> jsval) list \<Rightarrow> string \<Rightarrow> property" where
  "getProperty obj key =
     (case map_of obj key of
        Some v \<Rightarrow> Own v
      | None \<Rightarrow>
          if key = ''__proto__'' then Inherited ''[object Object]''
          else if key \<in> set objectPrototypeMethods then Inherited (nativeSource key)
          else Undefined)"

definition orZeroPlusOne :: "property \<Rightarrow> jsval" where
  \<comment> \<open>\<open>(v || 0) + 1\<close>\<close>
  "orZeroPlusOne v =
     (case v of
        Own (Num n) \<Rightarrow> Num (n + 1)
      | Own (Str s) \<Rightarrow> (if s = [] then Num 1 else Str (s @ ''1''))
      | Inherited s \<Rightarrow> Str (s @ ''1'')
      | Undefined \<Rightarrow> Num 1)"

text \<open>
  \<open>frequency[key] = v\<close>, for a number or a string \<open>v\<close>: an own property is overwritten in
  place; the setter of \<open>__proto__\<close> ignores a value that is not an object; any other key
  becomes a new own property.
\<close>

definition setProperty :: "(string \<times> jsval) list \<Rightarrow> string \<Rightarrow> jsval \<Rightarrow> (string \<times> jsval) list" where
  "setProperty obj key v =
     (if key \<in> set (map fst obj) then map (\<lambda>(k, w). if k = key then (k, v) else (k, w)) obj
      else if key = ''__proto__'' then obj
      else obj @ [(key, v)])"

definition countWord :: "(string \<times> jsval) list \<Rightarrow> string \<Rightarrow> (string \<times> jsval) list" where
  "countWord frequency word = setProperty frequency word (orZeroPlusOne (getProperty frequency word))"

text \<open>
  \<open>Object.entries\<close> lists the keys that are array indices (canonical decimal numerals
  below \<open>2\<^sup>3\<^sup>2 - 1\<close>) first, in ascending numeric order, then the other keys in the order
  of their creation.
\<close>

definition isDigit :: "char \<Rightarrow> bool" where
  "isDigit c = (let n = of_char c :: int in 48 \<le> n \<and> n \<le> 57)"

definition digitsValue :: "string \<Rightarrow> int" where
  "digitsValue s = foldl (\<lambda>acc c. 10 * acc + (of_char c - 48)) 0 s"

definition isArrayIndex :: "string \<Rightarrow> bool" where
  "isArrayIndex key =
     (if key = [] then False
      else if hd key = CHR ''0'' then key = ''0''
      else list_all isDigit key \<and> digitsValue key < 2 ^ 32 - 1)"

definition entries :: "(string \<times> jsval) list \<Rightarrow> (string \<times> jsval) list" where
  "entries obj =
     sort_key (\<lambda>(k, v). digitsValue k) (filter (\<lambda>(k, v). isArrayIndex k) obj) @
     filter (\<lambda>(k, v). \<not> isArrayIndex k) obj"

text \<open>
  The comparator \<open>([,a], [,b]) => b - a\<close> is positive when both counts are numbers and
  \<open>b\<close> is the larger one; with a string for a count the difference is \<open>NaN\<close>, which
  \<open>sort\<close> takes for 0. (The comparator is then not consistent, and where the entry with
  the string ends up depends on the engine; \<open>jsSort\<close> places it as an insertion sort
  does.)
\<close>

definition countAfter :: "string \<times> jsval \<Rightarrow> string \<times> jsval \<Rightarrow> bool" where
  "countAfter p q = (case (snd p, snd q) of (Num a, Num b) \<Rightarrow> int b - int a > 0 | _ \<Rightarrow> False)"

definition getWordFrequency :: "string \<Rightarrow> bool \<Rightarrow> (string \<times> jsval) list" where
  "getWordFrequency text removeStopWords =
     take 50 (jsSort countAfter (entries (foldl countWord [] (filteredWords text removeStopWords))))"

record cloud_state =
  cloudInputText :: string
  removeStopWords :: bool
  minWordLength :: nat
  maxWords :: nat
  frequencies :: "(string \<times> jsval) list"

definition generateWordCloud :: "cloud_state \<Rightarrow> cloud_state" where
  "generateWordCloud st =
     (if trim (cloudInputText st) = [] then st
      else st\<lparr>frequencies :=
             take (maxWords st)
               (filter (\<lambda>(word, c). length word \<ge> minWordLength st)
                  (getWordFrequency (cloudInputText st) (removeStopWords st)))\<rparr>)"


section \<open>Word-cloud layout: radius and final clamp\<close>

definition minSize :: real where "minSize = 12"
definition maxSize :: real where "maxSize = 36"

definition adjustedRadius :: "real \<Rightarrow> real \<Rightarrow> nat \<Rightarrow> real" where
  "adjustedRadius cnt maxCount textLength =
     (let size = minSize + ((cnt / maxCount) * (maxSize - minSize));
          approxTextWidth = 0.6 * size * real textLength;
          baseRadius = max 14 (size * 1.0);
          bubbleRadius = max baseRadius (approxTextWidth / 2 + 10);
          paddingRadius = min bubbleRadius 110
      in max 12 (paddingRadius * 0.92))"

definition halfW :: real where "halfW = 1000 / 2"
definition halfH :: real where "halfH = 650 / 2"

record node =
  node_text :: string
  node_count :: nat
  node_size :: real
  node_color :: string
  node_x :: real
  node_y :: real
  node_rotate :: real
  node_radius :: real

text \<open>The body of the last \<open>forEach\<close>, and the loop over the nodes.\<close>

definition clampNode :: "node \<Rightarrow> node" where
  "clampNode n =
     n\<lparr>node_x := max (- halfW + node_radius n) (min (halfW - node_radius n) (node_x n)),
       node_y := max (- halfH + node_radius n) (min (halfH - node_radius n) (node_y n))\<rparr>"

definition clampNodes :: "node list \<Rightarrow> node list" where
  "clampNodes nodes = map clampNode nodes"


section \<open>Summaries from the backend (CommentSummarizer, backend version)\<close>





section \<open>Quantities that the stated properties name\<close>

text \<open>
  The number of sentences that the specification states for the summarizer: the fraction of the length setting, rounded up,
  at least 1 and at most all sentences.
\<close>

definition lengthFraction :: "summary_length \<Rightarrow> real" where
  "lengthFraction len = (case len of Short \<Rightarrow> 0.2 | Medium \<Rightarrow> 0.4 | Long \<Rightarrow> 0.6)"

definition statedCount :: "summary_length \<Rightarrow> nat \<Rightarrow> nat" where
  "statedCount len n = min n (max 1 (nat \<lceil>lengthFraction len * real n\<rceil>))"

text \<open>The least number of sentences that the code asks for at each length setting.\<close>

definition minimumCount :: "summary_length \<Rightarrow> nat" where
  "minimumCount len = (case len of Short \<Rightarrow> 1 | Medium \<Rightarrow> 2 | Long \<Rightarrow> 3)"

text \<open>The count that an entry of the frequency list carries, when it is a number.\<close>

definition numericCount :: "jsval \<Rightarrow> nat" where
  "numericCount v = (case v of Num n \<Rightarrow> n | Str s \<Rightarrow> 0)"



section \<open>Properties of the string functions\<close>

lemma splitRuns_nonempty: "splitRuns sep cur inSep s \<noteq> []"
  by (induction s arbitrary: cur inSep) auto

lemma splitOn_length_pos: "0 < length (splitOn sep s)"
  by (simp add: splitOn_def splitRuns_nonempty)


section \<open>Properties of the sentiment scorers\<close>

text \<open>The loop of \<open>lexicalScore\<close> adds the number of positive words and takes away the
  number of negative words, one for each occurrence.\<close>

lemma scoreWords_closed:
  "scoreWords pos neg s ws =
     s + int (length (filter (\<lambda>w. w \<in> set pos) ws)) - int (length (filter (\<lambda>w. w \<in> set neg) ws))"
  by (induction ws arbitrary: s) (simp_all add: Let_def)

lemma countIncluded_closed: "countIncluded t c ws = c + length (filter (includes_str t) ws)"
  by (induction ws arbitrary: c) auto

text \<open>
  C2. For every text and every reply of the backend, the normalized score of the
  dashboard's \<open>analyzeSentiment\<close> lies within \<open>[-1, 1]\<close>. On the path that computes it
  (a first row with string fields), it is the lexical score divided by the number of
  tokens, times 5, clamped to \<open>[-1, 1]\<close>; the number of tokens is never 0.
\<close>

theorem normalizedScore_bounded:
  "- 1 \<le> normalizedScore (analyzeSentiment_dashboard reply text) \<and>
   normalizedScore (analyzeSentiment_dashboard reply text) \<le> 1 \<and>
   normalizedScore (analyzeSentiment_dashboard (Rows ((LabelText l, ConfText v) # rest)) text) =
     max (- 1) (min 1
       (of_int (lexicalScore text) / of_nat (length (splitOn isSpace (toLowerCase text))) * 5)) \<and>
   0 < length (splitOn isSpace (toLowerCase text))"
proof -
  have "- 1 \<le> normalizedScore (analyzeSentiment_dashboard reply text) \<and>
      normalizedScore (analyzeSentiment_dashboard reply text) \<le> 1"
    by (simp add: analyzeSentiment_dashboard_def neutralResult_def Let_def
        split: sentiment_reply.splits list.splits prod.splits label_field.splits
          conf_field.splits)
  moreover have "normalizedScore
      (analyzeSentiment_dashboard (Rows ((LabelText l, ConfText v) # rest)) text) =
     max (- 1) (min 1
       (of_int (lexicalScore text) / of_nat (length (splitOn isSpace (toLowerCase text))) * 5))"
    by (simp add: analyzeSentiment_dashboard_def Let_def lexicalScore_def lexicalScoreWith_def)
  moreover have "0 < length (splitOn isSpace (toLowerCase text))"
    by (rule splitOn_length_pos)
  ultimately show ?thesis by simp
qed

text \<open>
  C3, as stated, fails for the local fallback \<open>getLocalSentimentAnalysis\<close>: on
  \<open>good good bad\<close> it counts one positive and one negative keyword, calls the text neutral
  and returns a random score, not 1; and it finds \<open>support\<close> inside \<open>unsupported\<close>, where
  no whole token matches.
\<close>

theorem local_scorer_counterexample:
  "positiveCount ''good good bad'' = 1 \<and> negativeCount ''good good bad'' = 1 \<and>
   sentiment (getLocalSentimentAnalysis ''good good bad'' 0 0) = Neutral \<and>
   score (getLocalSentimentAnalysis ''good good bad'' 0 0) \<noteq> 1 \<and>
   positiveCount ''unsupported'' = 1 \<and> lexicalScore ''unsupported'' = 0"
proof -
  have c: "positiveCount ''good good bad'' = 1" "negativeCount ''good good bad'' = 1"
    by code_simp+
  have u: "positiveCount ''unsupported'' = 1" "lexicalScore ''unsupported'' = 0"
    by code_simp+
  show ?thesis
    using c u by (simp add: getLocalSentimentAnalysis_def)
qed

text \<open>
  C3, amended. \<open>lexicalScore\<close> splits the case-folded text on whitespace and returns the
  number of tokens in the positive list minus the number of tokens in the negative list,
  each occurrence counting 1; \<open>good good bad\<close> scores 1, with the lists of the code and
  with the lists \<open>[good]\<close> and \<open>[bad]\<close>. The local fallback counts, for each list, the
  keywords that occur somewhere in the case-folded text, each keyword once.
\<close>

theorem lexicalScore_counts:
  "lexicalScoreWith pos neg text =
     int (length (filter (\<lambda>w. w \<in> set pos) (splitOn isSpace (toLowerCase text)))) -
     int (length (filter (\<lambda>w. w \<in> set neg) (splitOn isSpace (toLowerCase text)))) \<and>
   lexicalScore text = lexicalScoreWith positiveWords negativeWords text \<and>
   lexicalScore ''good good bad'' = 1 \<and>
   lexicalScoreWith [''good''] [''bad''] ''good good bad'' = 1 \<and>
   positiveCount text = length (filter (includes_str (toLowerCase text)) positiveWordsLocal) \<and>
   negativeCount text = length (filter (includes_str (toLowerCase text)) negativeWordsLocal)"
proof -
  have "lexicalScore ''good good bad'' = 1"
    by code_simp
  moreover have "lexicalScoreWith [''good''] [''bad''] ''good good bad'' = 1"
    by code_simp
  ultimately show ?thesis
    by (simp add: lexicalScoreWith_def lexicalScore_def scoreWords_closed positiveCount_def
        negativeCount_def countIncluded_closed)
qed





section \<open>Properties of the sort\<close>

text \<open>
  With a comparator that compares a key, \<open>jsSort\<close> is the stable sort by that key, the
  one result that \<open>Array.prototype.sort\<close> may give.
\<close>

lemma insertSorted_insort_key:
  assumes "\<And>a b. after a b \<longleftrightarrow> key b < key a"
  shows "insertSorted after a bs = insort_key key a bs"
  by (induction bs) (auto simp: assms)

lemma jsSort_sort_key:
  fixes key :: "'a \<Rightarrow> 'k::linorder"
  assumes "\<And>a b. after a b \<longleftrightarrow> key b < key a"
  shows "jsSort after xs = sort_key key xs"
proof -
  have "insertSorted after = insort_key key"
    using insertSorted_insort_key [of after key, OF assms] by (intro ext)
  then show ?thesis by (simp add: jsSort_def sort_key_def)
qed

lemma mset_insertSorted: "mset (insertSorted after a bs) = add_mset a (mset bs)"
  by (induction bs) auto

lemma mset_jsSort: "mset (jsSort after xs) = mset xs"
  by (induction xs) (simp_all add: jsSort_def mset_insertSorted)

lemma set_jsSort: "set (jsSort after xs) = set xs"
  using mset_jsSort [of after xs] by (metis set_mset_mset)

lemma length_jsSort: "length (jsSort after xs) = length xs"
  using mset_jsSort [of after xs] by (metis size_mset)


section \<open>Properties of the summarizer\<close>

lemma byScore:
  "jsSort (\<lambda>a b. sentenceScore b - sentenceScore a > 0) xs =
   sort_key (\<lambda>a. - sentenceScore a) xs"
  by (rule jsSort_sort_key) auto

lemma byIndex: "jsSort (\<lambda>a b. int (index a) - int (index b) > 0) xs = sort_key index xs"
  by (rule jsSort_sort_key) auto

lemma length_scoredSentences: "length (scoredSentences text) = length (sentences text)"
  by (simp add: scoredSentences_def)

lemma map_index_scoredSentences:
  "map index (scoredSentences text) = [0..<length (sentences text)]"
proof -
  have "map index (scoredSentences text) = map fst (enumerate 0 (sentences text))"
    by (simp add: scoredSentences_def case_prod_unfold o_def)
  then show ?thesis by (simp add: map_fst_enumerate del: upt.simps)
qed

lemma scoredSentences_member:
  assumes "s \<in> set (scoredSentences text)"
  shows "index s < length (sentences text)" and "sentence s = trim (sentences text ! index s)"
  using assms by (auto simp: scoredSentences_def in_set_enumerate_eq)

lemma length_topSentences:
  "length (topSentences text len) =
   min (length (sentences text)) (targetSentences len (length (sentences text)))"
  unfolding topSentences_def
  by (simp add: length_jsSort length_scoredSentences min.commute)

lemma set_topSentences: "set (topSentences text len) \<subseteq> set (scoredSentences text)"
proof -
  have "set (take k (jsSort after xs)) \<subseteq> set xs"
    for k after and xs :: "scored_sentence list"
    using set_take_subset [of k "jsSort after xs"] by (simp add: set_jsSort)
  then show ?thesis
    unfolding topSentences_def by (simp add: set_jsSort)
qed

lemma distinct_index_topSentences: "distinct (map index (topSentences text len))"
proof -
  let ?ranked = "sort_key (\<lambda>a. - sentenceScore a) (scoredSentences text)"
  let ?k = "targetSentences len (length (sentences text))"
  have m1: "mset (map index ?ranked) = mset (map index (scoredSentences text))"
    by simp
  have "distinct (map index (scoredSentences text))"
    by (simp only: map_index_scoredSentences distinct_upt)
  with mset_eq_imp_distinct_iff [OF m1] have "distinct (map index ?ranked)"
    by blast
  then have "distinct (take ?k (map index ?ranked))"
    by (rule distinct_take)
  then have d: "distinct (map index (take ?k ?ranked))"
    by (simp only: take_map)
  have m2: "mset (map index (sort_key index (take ?k ?ranked))) =
      mset (map index (take ?k ?ranked))"
    by simp
  from mset_eq_imp_distinct_iff [OF m2] d
  have "distinct (map index (sort_key index (take ?k ?ranked)))"
    by blast
  then show ?thesis
    unfolding topSentences_def byScore byIndex .
qed

lemma sorted_index_topSentences: "sorted (map index (topSentences text len))"
  unfolding topSentences_def byScore byIndex by simp

lemma increasing_index_topSentences: "sorted_wrt (<) (map index (topSentences text len))"
  using sorted_index_topSentences distinct_index_topSentences by (simp add: strict_sorted_iff)

text \<open>
  C5, as stated, fails: of two sentences the medium setting selects both, where the
  stated count \<open>max(1, ceil(0.4 * 2))\<close> is 1.
\<close>

theorem medium_minimum_counterexample:
  "length (sentences ''The bill is good. It helps companies.'') = 2 \<and>
   length (topSentences ''The bill is good. It helps companies.'' Medium) = 2 \<and>
   statedCount Medium 2 = 1"
proof -
  have n: "length (sentences ''The bill is good. It helps companies.'') = 2"
    by code_simp
  have "length (topSentences ''The bill is good. It helps companies.'' Medium) = 2"
    by (simp add: length_topSentences n targetSentences_def)
  moreover have "statedCount Medium 2 = 1"
    by (simp add: statedCount_def lengthFraction_def)
  ultimately show ?thesis using n by simp
qed

text \<open>
  C5, amended. For every text with \<open>n\<close> sentences and every length setting with fraction
  \<open>f\<close>, the summarizer selects exactly \<open>max(m, ceil(f * n))\<close> sentences, capped at \<open>n\<close>,
  where the minimum \<open>m\<close> is 1 for short, 2 for medium and 3 for long.
\<close>

theorem topSentences_count:
  "length (topSentences text len) =
   min (length (sentences text))
     (max (minimumCount len) (nat \<lceil>lengthFraction len * real (length (sentences text))\<rceil>))"
  by (cases len)
    (simp_all add: length_topSentences targetSentences_def minimumCount_def lengthFraction_def
      mult.commute)

text \<open>
  C6. Of exactly 10 sentences the medium setting selects exactly 4; they are sentences of
  the text, taken in increasing order of their position, and the summary joins them in
  that order.
\<close>

theorem ten_sentences_medium:
  assumes "length (sentences text) = 10"
  shows "length (topSentences text Medium) = 4 \<and>
    sorted_wrt (<) (map index (topSentences text Medium)) \<and>
    list_all (\<lambda>s. index s < 10 \<and> sentence s = trim (sentences text ! index s))
      (topSentences text Medium) \<and>
    summarizeText text Medium = join ''. '' (map sentence (topSentences text Medium)) @ ''.''"
proof -
  have "length (topSentences text Medium) = 4"
    by (simp add: length_topSentences assms targetSentences_def)
  moreover have "sorted_wrt (<) (map index (topSentences text Medium))"
    by (rule increasing_index_topSentences)
  moreover have "list_all (\<lambda>s. index s < 10 \<and> sentence s = trim (sentences text ! index s))
      (topSentences text Medium)"
    unfolding list_all_iff
    using set_topSentences [of "text" Medium] scoredSentences_member [of _ "text"] assms by auto
  ultimately show ?thesis
    by (simp add: summarizeText_def)
qed

theorem ten_sentences_medium_witness:
  "length (sentences ''The bill is good. We agree with it! Is the company ready? The amendment helps. Costs are high. One. Two. Three. Four. The end is near'') = 10 \<and>
   length (topSentences ''The bill is good. We agree with it! Is the company ready? The amendment helps. Costs are high. One. Two. Three. Four. The end is near'' Medium) = 4 \<and>
   sorted_wrt (<) (map index (topSentences ''The bill is good. We agree with it! Is the company ready? The amendment helps. Costs are high. One. Two. Three. Four. The end is near'' Medium))"
proof -
  have n: "length (sentences ''The bill is good. We agree with it! Is the company ready? The amendment helps. Costs are high. One. Two. Three. Four. The end is near'') = 10"
    by code_simp
  show ?thesis
    using ten_sentences_medium [OF n] n by simp
qed

text \<open>
  C9. The summary that a run leaves depends on the input text and the length setting
  only: two runs on the same non-blank text with the same setting, from any two states of
  the component, select the same sentences in the same order and leave the same summary,
  and a second run changes nothing. Both comparators order by a key, so that the
  selection is the one that every stable sort gives.
\<close>

theorem summarizer_deterministic:
  assumes "inputText s1 = inputText s2" and "summaryLength s1 = summaryLength s2"
    and "trim (inputText s1) \<noteq> []"
  shows "summary (handleSummarize s1) = summary (handleSummarize s2) \<and>
    summary (handleSummarize s1) = summarizeText (inputText s1) (summaryLength s1) \<and>
    topSentences (inputText s1) (summaryLength s1) =
      topSentences (inputText s2) (summaryLength s2) \<and>
    topSentences (inputText s1) (summaryLength s1) =
      sort_key index
        (take (targetSentences (summaryLength s1) (length (sentences (inputText s1))))
           (sort_key (\<lambda>a. - sentenceScore a) (scoredSentences (inputText s1)))) \<and>
    handleSummarize (handleSummarize s1) = handleSummarize s1"
proof -
  have "topSentences (inputText s1) (summaryLength s1) =
      sort_key index
        (take (targetSentences (summaryLength s1) (length (sentences (inputText s1))))
           (sort_key (\<lambda>a. - sentenceScore a) (scoredSentences (inputText s1))))"
    unfolding topSentences_def byScore byIndex ..
  then show ?thesis
    using assms by (simp add: handleSummarize_def)
qed

theorem summarizer_deterministic_witness:
  "inputText \<lparr>inputText = ''The bill is good. It helps companies.'', summary = ''old'',
       summaryLength = Medium, isProcessing = False\<rparr> =
   inputText \<lparr>inputText = ''The bill is good. It helps companies.'', summary = [],
       summaryLength = Medium, isProcessing = True\<rparr> \<and>
   trim ''The bill is good. It helps companies.'' \<noteq> [] \<and>
   summary (handleSummarize \<lparr>inputText = ''The bill is good. It helps companies.'',
       summary = ''old'', summaryLength = Medium, isProcessing = False\<rparr>) =
   summary (handleSummarize \<lparr>inputText = ''The bill is good. It helps companies.'',
       summary = [], summaryLength = Medium, isProcessing = True\<rparr>)"
proof -
  have t: "trim ''The bill is good. It helps companies.'' \<noteq> []"
    by code_simp
  show ?thesis
    using summarizer_deterministic
      [of "\<lparr>inputText = ''The bill is good. It helps companies.'', summary = ''old'',
            summaryLength = Medium, isProcessing = False\<rparr>"
          "\<lparr>inputText = ''The bill is good. It helps companies.'', summary = [],
            summaryLength = Medium, isProcessing = True\<rparr>"] t
    by simp
qed

section \<open>Properties of the frequency counter\<close>

subsection \<open>The tokens are in lower case\<close>

lemma toLowerChar_not_upper:
  "\<not> (65 \<le> (of_char (toLowerChar c) :: int) \<and> (of_char (toLowerChar c) :: int) \<le> 90)"
proof -
  define n :: int where "n = of_char c"
  have shifted: "(of_char (char_of (n + 32)) :: int) = n + 32" if "0 \<le> n" "n \<le> 222"
    using that by simp
  show ?thesis
  proof (cases "65 \<le> n \<and> n \<le> 90")
    case True
    then have "toLowerChar c = char_of (n + 32)"
      by (simp add: toLowerChar_def n_def)
    with True shifted show ?thesis by simp
  next
    case False
    show ?thesis
    proof (cases "192 \<le> n \<and> n \<le> 222 \<and> n \<noteq> 215")
      case True
      then have "toLowerChar c = char_of (n + 32)"
        by (simp add: toLowerChar_def n_def)
      with True shifted show ?thesis by simp
    next
      case other: False
      with False have "toLowerChar c = c"
        by (auto simp: toLowerChar_def n_def)
      with False show ?thesis by (simp add: n_def)
    qed
  qed
qed

lemma splitRuns_chars:
  assumes "w \<in> set (splitRuns sep cur inSep s)" and "c \<in> set w"
  shows "c \<in> set cur \<union> set s"
  using assms
proof (induction s arbitrary: cur inSep)
  case Nil
  then show ?case by simp
next
  case (Cons a s)
  show ?case
  proof (cases "sep a")
    case True
    with Cons.prems have "w = rev cur \<or> w \<in> set (splitRuns sep [] True s)"
      by (auto split: if_splits)
    then show ?thesis
      using Cons.IH [of "[]" True] Cons.prems(2) by auto
  next
    case False
    with Cons.prems have "w \<in> set (splitRuns sep (a # cur) False s)"
      by simp
    then show ?thesis
      using Cons.IH [of "a # cur" False] Cons.prems(2) by auto
  qed
qed

lemma tokens_not_upper:
  assumes "w \<in> set (tokens text)" and "c \<in> set w"
  shows "\<not> (65 \<le> (of_char c :: int) \<and> (of_char c :: int) \<le> 90)"
proof -
  have "c \<in> set (stripPunctuation (toLowerCase text))"
    using assms splitRuns_chars [of w isSpace "[]" False _ c]
    by (auto simp: tokens_def splitOn_def)
  then have "c = CHR '' '' \<or> c \<in> set (toLowerCase text)"
    by (auto simp: stripPunctuation_def split: if_splits)
  then show ?thesis
  proof
    assume "c = CHR '' ''"
    then show ?thesis by simp
  next
    assume "c \<in> set (toLowerCase text)"
    then obtain d where "c = toLowerChar d"
      by (auto simp: toLowerCase_def)
    then show ?thesis
      using toLowerChar_not_upper [of d] by simp
  qed
qed

lemma filteredWords_subset: "set (filteredWords text rs) \<subseteq> set (tokens text)"
  by (auto simp: filteredWords_def Let_def)

lemma length_filteredWords: "length (filteredWords text rs) \<le> length (tokens text)"
proof -
  have "length (filter P (filter Q xs)) \<le> length xs" for P Q and xs :: "string list"
    by (rule le_trans [OF length_filter_le length_filter_le])
  then show ?thesis
    by (simp add: filteredWords_def Let_def)
qed

text \<open>
  Of the names that \<open>Object.prototype\<close> defines, a token can only be \<open>constructor\<close> or
  \<open>__proto__\<close>: every other one has a capital letter.
\<close>

lemma filteredWords_methods:
  assumes "w \<in> set (filteredWords text rs)" and "w \<in> set objectPrototypeMethods"
  shows "w = ''constructor''"
proof (rule ccontr)
  assume "w \<noteq> ''constructor''"
  with assms(2) have "\<exists>c \<in> set w. 65 \<le> (of_char c :: int) \<and> (of_char c :: int) \<le> 90"
    by (auto simp: objectPrototypeMethods_def)
  moreover have "w \<in> set (tokens text)"
    using assms(1) filteredWords_subset by blast
  ultimately show False
    using tokens_not_upper by blast
qed

subsection \<open>The counting loop\<close>

lemma map_of_overwrite:
  "map_of (map (\<lambda>(k, w). if k = key then (k, v) else (k, w)) obj) k' =
   (if k' = key then map_option (\<lambda>w. v) (map_of obj key) else map_of obj k')"
  by (induction obj) auto

lemma keys_overwrite:
  "map fst (map (\<lambda>(k, w). if k = key then (k, v) else (k, w)) obj) = map fst obj"
  by (induction obj) auto

lemma keys_setProperty:
  "map fst (setProperty obj key v) = map fst obj \<or>
   map fst (setProperty obj key v) = map fst obj @ [key]"
proof (cases "key \<in> set (map fst obj)")
  case True
  then have "setProperty obj key v = map (\<lambda>(k, w). if k = key then (k, v) else (k, w)) obj"
    by (simp only: setProperty_def if_True)
  then have "map fst (setProperty obj key v) = map fst obj"
    by (simp only: keys_overwrite)
  then show ?thesis ..
next
  case False
  then show ?thesis
    by (simp add: setProperty_def)
qed

lemma keys_countWord: "set (map fst (countWord obj w)) \<subseteq> insert w (set (map fst obj))"
proof -
  let ?new = "setProperty obj w (orZeroPlusOne (getProperty obj w))"
  from keys_setProperty [of obj w "orZeroPlusOne (getProperty obj w)"]
  have "set (map fst ?new) \<subseteq> insert w (set (map fst obj))"
  proof
    assume e: "map fst ?new = map fst obj"
    show ?thesis unfolding e by blast
  next
    assume e: "map fst ?new = map fst obj @ [w]"
    show ?thesis unfolding e by auto
  qed
  then show ?thesis
    by (simp only: countWord_def)
qed

lemma keys_frequency: "set (map fst (foldl countWord obj ws)) \<subseteq> set (map fst obj) \<union> set ws"
proof (induction ws arbitrary: obj)
  case Nil
  then show ?case by simp
next
  case (Cons w ws)
  from Cons.IH [of "countWord obj w"] keys_countWord [of obj w]
  show ?case by auto
qed

text \<open>
  As long as no word is the name of a method of \<open>Object.prototype\<close>, the object holds,
  for every word seen so far except \<open>__proto__\<close>, the number of its occurrences.
\<close>

lemma frequency_counts:
  assumes "set ws \<inter> set objectPrototypeMethods = {}"
  shows "distinct (map fst (foldl countWord [] ws)) \<and>
    (\<forall>w. map_of (foldl countWord [] ws) w =
       (if w \<in> set ws \<and> w \<noteq> ''__proto__'' then Some (Num (count_list ws w)) else None))"
  using assms
proof (induction ws rule: rev_induct)
  case Nil
  then show ?case by simp
next
  case (snoc x xs)
  define obj where "obj = foldl countWord [] xs"
  from snoc have d: "distinct (map fst obj)"
    and m: "\<And>w. map_of obj w =
       (if w \<in> set xs \<and> w \<noteq> ''__proto__'' then Some (Num (count_list xs w)) else None)"
    and x: "x \<notin> set objectPrototypeMethods"
    by (auto simp: obj_def)
  have step: "foldl countWord [] (xs @ [x]) = countWord obj x"
    by (simp add: obj_def)
  consider (proto) "x = ''__proto__''" | (seen) "x \<noteq> ''__proto__''" "x \<in> set xs"
    | (new) "x \<noteq> ''__proto__''" "x \<notin> set xs"
    by blast
  then show ?case
  proof cases
    case proto
    with m [of x] have "map_of obj x = None" by simp
    then have "x \<notin> set (map fst obj)"
      by (simp add: map_of_eq_None_iff)
    with proto have "countWord obj x = obj"
      by (simp add: countWord_def setProperty_def)
    with d m proto show ?thesis
      unfolding step by auto
  next
    case seen
    with m [of x] have own: "map_of obj x = Some (Num (count_list xs x))" by simp
    then have "x \<in> set (map fst obj)"
      by (metis map_of_eq_None_iff option.distinct(1) set_map)
    with own have c: "countWord obj x =
        map (\<lambda>(k, w). if k = x then (k, Num (Suc (count_list xs x))) else (k, w)) obj"
      by (simp add: countWord_def setProperty_def getProperty_def orZeroPlusOne_def)
    have "distinct (map fst (countWord obj x))"
      unfolding c by (simp only: keys_overwrite d)
    moreover have "map_of (countWord obj x) w =
        (if w \<in> set (xs @ [x]) \<and> w \<noteq> ''__proto__''
         then Some (Num (count_list (xs @ [x]) w)) else None)" for w
      unfolding c map_of_overwrite using m [of w] own seen by auto
    ultimately show ?thesis
      unfolding step by blast
  next
    case new
    with m [of x] have none: "map_of obj x = None" by simp
    then have nk: "x \<notin> set (map fst obj)"
      by (simp add: map_of_eq_None_iff)
    with none new x have c: "countWord obj x = obj @ [(x, Num 1)]"
      by (simp add: countWord_def setProperty_def getProperty_def orZeroPlusOne_def)
    show ?thesis
      unfolding step c using d m nk new
      by (auto simp: map_add_def split: option.splits)
  qed
qed

subsection \<open>The list that is returned\<close>

lemma mset_entries: "mset (entries obj) = mset obj"
  by (simp add: entries_def case_prod_unfold)

lemma sum_list_take_le: "sum_list (map f (take k xs)) \<le> (sum_list (map f xs) :: nat)"
proof -
  have "sum_list (map f (take k xs)) + sum_list (map f (drop k xs)) = sum_list (map f xs)"
    by (metis append_take_drop_id map_append sum_list.append)
  then show ?thesis by linarith
qed

lemma getWordFrequency_subset:
  "set (getWordFrequency text rs) \<subseteq> set (foldl countWord [] (filteredWords text rs))"
proof -
  have "set (getWordFrequency text rs) \<subseteq>
      set (jsSort countAfter (entries (foldl countWord [] (filteredWords text rs))))"
    unfolding getWordFrequency_def by (rule set_take_subset)
  also have "\<dots> = set (foldl countWord [] (filteredWords text rs))"
    using mset_entries [of "foldl countWord [] (filteredWords text rs)"]
    by (simp only: set_jsSort) (metis set_mset_mset)
  finally show ?thesis .
qed

lemma getWordFrequency_keys:
  assumes "(w, v) \<in> set (getWordFrequency text rs)"
  shows "w \<in> set (filteredWords text rs)"
proof -
  from assms getWordFrequency_subset
  have "w \<in> set (map fst (foldl countWord [] (filteredWords text rs)))"
    by force
  with keys_frequency [of "[]" "filteredWords text rs"] show ?thesis by auto
qed

text \<open>
  In a text without the word \<open>constructor\<close>, every pair that is returned carries the
  number of occurrences of its word among the filtered words, which is at least 1; no
  word is returned twice; and the counts add up to at most the number of tokens.
\<close>

lemma getWordFrequency_counts:
  assumes "''constructor'' \<notin> set (filteredWords text rs)"
  shows "list_all (\<lambda>(w, v). v = Num (count_list (filteredWords text rs) w) \<and>
            1 \<le> count_list (filteredWords text rs) w) (getWordFrequency text rs)"
    and "distinct (map fst (getWordFrequency text rs))"
    and "sum_list (map (\<lambda>(w, v). numericCount v) (getWordFrequency text rs)) \<le> length (tokens text)"
proof -
  let ?fw = "filteredWords text rs"
  let ?obj = "foldl countWord [] ?fw"
  let ?sorted = "jsSort countAfter (entries ?obj)"
  have "set ?fw \<inter> set objectPrototypeMethods = {}"
    using assms filteredWords_methods by blast
  from frequency_counts [OF this]
  have d: "distinct (map fst ?obj)"
    and m: "\<And>w. map_of ?obj w =
      (if w \<in> set ?fw \<and> w \<noteq> ''__proto__'' then Some (Num (count_list ?fw w)) else None)"
    by blast+
  have member: "v = Num (count_list ?fw w) \<and> w \<in> set ?fw" if "(w, v) \<in> set ?obj" for w v
  proof -
    from that d have "map_of ?obj w = Some v" by simp
    with m [of w] show ?thesis by (auto split: if_splits)
  qed
  show "list_all (\<lambda>(w, v). v = Num (count_list ?fw w) \<and> 1 \<le> count_list ?fw w)
      (getWordFrequency text rs)"
    unfolding list_all_iff
  proof (intro ballI, clarify)
    fix w v
    assume "(w, v) \<in> set (getWordFrequency text rs)"
    with getWordFrequency_subset have "(w, v) \<in> set ?obj" by blast
    from member [OF this] have "v = Num (count_list ?fw w)" and "w \<in> set ?fw" by blast+
    moreover from \<open>w \<in> set ?fw\<close> have "count_list ?fw w \<noteq> 0"
      by (simp add: count_list_0_iff)
    ultimately show "v = Num (count_list ?fw w) \<and> 1 \<le> count_list ?fw w" by simp
  qed
  have ms: "mset ?sorted = mset ?obj"
    by (simp only: mset_jsSort mset_entries)
  then have "mset (map fst ?sorted) = mset (map fst ?obj)"
    by simp
  from mset_eq_imp_distinct_iff [OF this] d have "distinct (map fst ?sorted)"
    by blast
  then have "distinct (take 50 (map fst ?sorted))"
    by (rule distinct_take)
  then show "distinct (map fst (getWordFrequency text rs))"
    by (simp only: getWordFrequency_def take_map)
  let ?f = "\<lambda>(w, v). numericCount v"
  have "sum_list (map ?f (getWordFrequency text rs)) \<le> sum_list (map ?f ?sorted)"
    unfolding getWordFrequency_def by (rule sum_list_take_le)
  also have "\<dots> = sum_list (map ?f ?obj)"
  proof -
    from ms have "mset (map ?f ?sorted) = mset (map ?f ?obj)" by simp
    then show ?thesis by (metis sum_mset_sum_list)
  qed
  also have "\<dots> = sum_list (map (count_list ?fw) (map fst ?obj))"
  proof -
    have "?f p = count_list ?fw (fst p)" if "p \<in> set ?obj" for p
      using member [of "fst p" "snd p"] that by (simp add: numericCount_def case_prod_unfold)
    then show ?thesis
      by (simp add: o_def cong: map_cong)
  qed
  also have "\<dots> = sum (count_list ?fw) (set (map fst ?obj))"
    using d by (rule sum_list_distinct_conv_sum_set)
  also have "\<dots> \<le> sum (count_list ?fw) (set ?fw)"
  proof (rule sum_mono2)
    show "set (map fst ?obj) \<subseteq> set ?fw"
      using keys_frequency [of "[]" ?fw] by simp
  qed simp_all
  also have "\<dots> = length ?fw"
    by (rule sum_count_set) simp_all
  also have "\<dots> \<le> length (tokens text)"
    by (rule length_filteredWords)
  finally show "sum_list (map ?f (getWordFrequency text rs)) \<le> length (tokens text)" .
qed

text \<open>
  C1 holds for every text without the word \<open>constructor\<close>; the code misses that word.
  \<open>frequency["constructor"]\<close> finds the inherited function \<open>Object\<close>, and the entry that
  is returned for the text \<open>constructor\<close> carries a string, not the count 1.
\<close>

theorem constructor_count_is_a_string:
  "getWordFrequency ''constructor'' True =
     [(''constructor'', Str ''function Object() { [native code] }1'')]"
  by code_simp

text \<open>Every word that \<open>generateWordCloud\<close> keeps is a filtered word as long as the
  configured minimum, and longer than 2 characters.\<close>

lemma generateWordCloud_lengths:
  assumes "trim (cloudInputText st) \<noteq> []"
    and "(w, v) \<in> set (frequencies (generateWordCloud st))"
  shows "minWordLength st \<le> length w" and "2 < length w"
    and "w \<in> set (filteredWords (cloudInputText st) (removeStopWords st))"
proof -
  let ?all = "getWordFrequency (cloudInputText st) (removeStopWords st)"
  from assms have "(w, v) \<in> set (take (maxWords st)
      (filter (\<lambda>(word, c). length word \<ge> minWordLength st) ?all))"
    by (simp add: generateWordCloud_def)
  then have "(w, v) \<in> set (filter (\<lambda>(word, c). length word \<ge> minWordLength st) ?all)"
    by (rule in_set_takeD)
  then have len: "minWordLength st \<le> length w" and "(w, v) \<in> set ?all"
    by simp_all
  from getWordFrequency_keys [OF this(2)]
  have fw: "w \<in> set (filteredWords (cloudInputText st) (removeStopWords st))" .
  then have "2 < length w"
    by (auto simp: filteredWords_def Let_def split: if_splits)
  with len fw show "minWordLength st \<le> length w" and "2 < length w"
    and "w \<in> set (filteredWords (cloudInputText st) (removeStopWords st))"
    by simp_all
qed

text \<open>
  C4 fails at the minimum length 2, the lowest value of the slider: the counter drops
  every word of fewer than 3 characters before the configured minimum is looked at. In
  \<open>ox ox cat\<close> the word \<open>ox\<close> is no stop word and as long as the minimum, and it is
  missing from the result.
\<close>

theorem two_letter_word_is_dropped:
  "frequencies (generateWordCloud \<lparr>cloudInputText = ''ox ox cat'', removeStopWords = True,
      minWordLength = 2, maxWords = 50, frequencies = []\<rparr>) = [(''cat'', Num 1)]"
  by code_simp


section \<open>Properties of the final clamp\<close>

lemma adjustedRadius_range:
  "12 \<le> adjustedRadius cnt maxCount textLength \<and> adjustedRadius cnt maxCount textLength \<le> 101.2"
  by (simp add: adjustedRadius_def Let_def min_def max_def)

text \<open>
  C8. On the canvas of 1000 by 650, after the clamp every node whose radius is at most
  half the width lies between \<open>-halfW + radius\<close> and \<open>halfW - radius\<close> horizontally, and
  every node whose radius is at most half the height lies between \<open>-halfH + radius\<close> and
  \<open>halfH - radius\<close> vertically; the clamp leaves the radius as it is. Every radius that
  the code computes for a word is at most half the height.
\<close>

theorem clamp_within_canvas:
  assumes "m \<in> set (clampNodes nodes)"
  shows "halfW = 500 \<and> halfH = 325 \<and>
    (node_radius m \<le> halfW \<longrightarrow>
       - halfW + node_radius m \<le> node_x m \<and> node_x m \<le> halfW - node_radius m) \<and>
    (node_radius m \<le> halfH \<longrightarrow>
       - halfH + node_radius m \<le> node_y m \<and> node_y m \<le> halfH - node_radius m) \<and>
    node_radius m \<in> set (map node_radius nodes) \<and>
    adjustedRadius cnt maxCount textLength \<le> halfH"
proof -
  from assms obtain n where n: "n \<in> set nodes" and m: "m = clampNode n"
    by (auto simp: clampNodes_def)
  have "node_radius m = node_radius n"
    by (simp add: m clampNode_def)
  with n have "node_radius m \<in> set (map node_radius nodes)"
    by auto
  moreover have "adjustedRadius cnt maxCount textLength \<le> halfH"
    using adjustedRadius_range [of cnt maxCount textLength] by (simp add: halfH_def)
  ultimately show ?thesis
    by (simp add: m clampNode_def halfW_def halfH_def)
qed

theorem clamp_within_canvas_witness:
  "clampNode \<lparr>node_text = ''governance'', node_count = 3, node_size = 36, node_color = ''#1a4480'',
      node_x = 700, node_y = - 400, node_rotate = 0, node_radius = 101.2\<rparr>
     \<in> set (clampNodes [\<lparr>node_text = ''governance'', node_count = 3, node_size = 36,
      node_color = ''#1a4480'', node_x = 700, node_y = - 400, node_rotate = 0,
      node_radius = 101.2\<rparr>]) \<and>
   (101.2 :: real) \<le> halfH \<and>
   node_x (clampNode \<lparr>node_text = ''governance'', node_count = 3, node_size = 36,
      node_color = ''#1a4480'', node_x = 700, node_y = - 400, node_rotate = 0,
      node_radius = 101.2\<rparr>) \<le> halfW - 101.2 \<and>
   - halfH + 101.2 \<le> node_y (clampNode \<lparr>node_text = ''governance'', node_count = 3,
      node_size = 36, node_color = ''#1a4480'', node_x = 700, node_y = - 400, node_rotate = 0,
      node_radius = 101.2\<rparr>)"
proof -
  let ?n = "\<lparr>node_text = ''governance'', node_count = 3, node_size = 36,
      node_color = ''#1a4480'', node_x = 700, node_y = - 400, node_rotate = 0,
      node_radius = 101.2\<rparr>"
  have "clampNode ?n \<in> set (clampNodes [?n])"
    by (simp add: clampNodes_def)
  from clamp_within_canvas [OF this] show ?thesis
    by (simp add: clampNodes_def clampNode_def halfW_def halfH_def)
qed

section \<open>Properties of the failure paths\<close>




end
